theory Spec2Isabelle
  imports Complex_Main
begin

section \<open>Numbers of the overlay component\<close>

text \<open>
  The component \<^verbatim>\<open>InteractiveImageOverlay.tsx\<close> computes with JavaScript numbers, which
  are IEEE-754 binary64 values. A number is either finite, here a real, or one of
  \<^verbatim>\<open>NaN\<close>, \<^verbatim>\<open>Infinity\<close> and \<^verbatim>\<open>-Infinity\<close>, which the unguarded divisions of the source
  produce on a zero divisor. A zero divisor is taken as \<^verbatim>\<open>+0\<close>.

  Two kinds of arithmetic are kept apart. The coordinates of the geometry (client points
  mapped to image space, vertices multiplied by the scale factors) are combined with the
  operations \<open>js_div\<close>, \<open>js_mul\<close> and \<open>js_add\<close>, which do not round: the statements about
  them hold up to the rounding error of doubles. Where the source rounds a number to an
  integer or prints its digits, the last bit of the double decides the outcome; these
  computations use \<open>double_div\<close> and \<open>double_mul\<close>, which round the exact result to the
  nearest binary64 value as the hardware does.
\<close>

datatype jsnum = Fin real | PosInf | NegInf | NaN

fun js_div :: "jsnum \<Rightarrow> jsnum \<Rightarrow> jsnum" where
  "js_div NaN b = NaN"
| "js_div a NaN = NaN"
| "js_div (Fin a) (Fin b) =
     (if b \<noteq> 0 then Fin (a / b)
      else if a = 0 then NaN
      else if 0 < a then PosInf else NegInf)"
| "js_div (Fin a) PosInf = Fin 0"
| "js_div (Fin a) NegInf = Fin 0"
| "js_div PosInf (Fin b) = (if 0 \<le> b then PosInf else NegInf)"
| "js_div NegInf (Fin b) = (if 0 \<le> b then NegInf else PosInf)"
| "js_div PosInf PosInf = NaN"
| "js_div PosInf NegInf = NaN"
| "js_div NegInf PosInf = NaN"
| "js_div NegInf NegInf = NaN"

fun js_mul :: "jsnum \<Rightarrow> jsnum \<Rightarrow> jsnum" where
  "js_mul NaN b = NaN"
| "js_mul a NaN = NaN"
| "js_mul (Fin a) (Fin b) = Fin (a * b)"
| "js_mul (Fin a) PosInf = (if a = 0 then NaN else if 0 < a then PosInf else NegInf)"
| "js_mul (Fin a) NegInf = (if a = 0 then NaN else if 0 < a then NegInf else PosInf)"
| "js_mul PosInf (Fin b) = (if b = 0 then NaN else if 0 < b then PosInf else NegInf)"
| "js_mul NegInf (Fin b) = (if b = 0 then NaN else if 0 < b then NegInf else PosInf)"
| "js_mul PosInf PosInf = PosInf"
| "js_mul PosInf NegInf = NegInf"
| "js_mul NegInf PosInf = NegInf"
| "js_mul NegInf NegInf = PosInf"

fun js_add :: "jsnum \<Rightarrow> jsnum \<Rightarrow> jsnum" where
  "js_add NaN b = NaN"
| "js_add a NaN = NaN"
| "js_add (Fin a) (Fin b) = Fin (a + b)"
| "js_add (Fin a) PosInf = PosInf"
| "js_add (Fin a) NegInf = NegInf"
| "js_add PosInf (Fin b) = PosInf"
| "js_add NegInf (Fin b) = NegInf"
| "js_add PosInf PosInf = PosInf"
| "js_add PosInf NegInf = NaN"
| "js_add NegInf PosInf = NaN"
| "js_add NegInf NegInf = NegInf"

subsection \<open>Binary64 rounding\<close>

text \<open>
  \<open>pow2 e\<close> is \<open>2\<^sup>e\<close> for an integer exponent, and \<open>binade x\<close> is the exponent \<open>e\<close> with
  \<open>2\<^sup>e \<le> |x| < 2\<^sup>e\<^sup>+\<^sup>1\<close>, found from the length in bits of \<open>\<lfloor>|x|\<rfloor>\<close>, or of \<open>\<lceil>1 / |x|\<rceil> - 1\<close>
  below one.
\<close>

definition pow2 :: "int \<Rightarrow> real" where
  "pow2 e = (if 0 \<le> e then 2 ^ nat e else 1 / 2 ^ nat (- e))"

fun bit_length :: "nat \<Rightarrow> nat" where
  "bit_length n = (if n = 0 then 0 else Suc (bit_length (n div 2)))"

declare bit_length.simps [simp del]

definition binade :: "real \<Rightarrow> int" where
  "binade x =
     (let a = \<bar>x\<bar>
      in if 1 \<le> a then int (bit_length (nat \<lfloor>a\<rfloor>)) - 1
         else - int (bit_length (nat (\<lceil>1 / a\<rceil> - 1))))"

definition round_ties_even :: "real \<Rightarrow> int" where
  "round_ties_even y =
     (let f = \<lfloor>y\<rfloor>; d = y - of_int f
      in if d < 1 / 2 then f else if 1 / 2 < d then f + 1 else if even f then f else f + 1)"

text \<open>
  The binary64 value nearest to a real, a tie going to the even significand: the
  significand has 53 bits, so the spacing of the values around \<open>x\<close> is \<open>2\<^sup>e\<^sup>-\<^sup>5\<^sup>2\<close> for the
  binade \<open>e\<close> of \<open>x\<close>, and \<open>2\<^sup>-\<^sup>1\<^sup>0\<^sup>7\<^sup>4\<close> in the subnormal range; a result of magnitude
  \<open>2\<^sup>1\<^sup>0\<^sup>2\<^sup>4\<close> is an overflow.
\<close>

definition to_double :: "real \<Rightarrow> jsnum" where
  "to_double x =
     (if x = 0 then Fin 0
      else
        let e = max (binade x) (- 1022);
            q = pow2 (e - 52);
            r = of_int (round_ties_even (x / q)) * q
        in if 2 ^ 1024 \<le> \<bar>r\<bar> then (if 0 < x then PosInf else NegInf) else Fin r)"

text \<open>Division and multiplication of doubles: the exact result, rounded.\<close>

fun double_div :: "jsnum \<Rightarrow> jsnum \<Rightarrow> jsnum" where
  "double_div NaN b = NaN"
| "double_div a NaN = NaN"
| "double_div (Fin a) (Fin b) =
     (if b \<noteq> 0 then to_double (a / b)
      else if a = 0 then NaN
      else if 0 < a then PosInf else NegInf)"
| "double_div (Fin a) PosInf = Fin 0"
| "double_div (Fin a) NegInf = Fin 0"
| "double_div PosInf (Fin b) = (if 0 \<le> b then PosInf else NegInf)"
| "double_div NegInf (Fin b) = (if 0 \<le> b then NegInf else PosInf)"
| "double_div PosInf PosInf = NaN"
| "double_div PosInf NegInf = NaN"
| "double_div NegInf PosInf = NaN"
| "double_div NegInf NegInf = NaN"

fun double_mul :: "jsnum \<Rightarrow> jsnum \<Rightarrow> jsnum" where
  "double_mul NaN b = NaN"
| "double_mul a NaN = NaN"
| "double_mul (Fin a) (Fin b) = to_double (a * b)"
| "double_mul (Fin a) PosInf = (if a = 0 then NaN else if 0 < a then PosInf else NegInf)"
| "double_mul (Fin a) NegInf = (if a = 0 then NaN else if 0 < a then NegInf else PosInf)"
| "double_mul PosInf (Fin b) = (if b = 0 then NaN else if 0 < b then PosInf else NegInf)"
| "double_mul NegInf (Fin b) = (if b = 0 then NaN else if 0 < b then NegInf else PosInf)"
| "double_mul PosInf PosInf = PosInf"
| "double_mul PosInf NegInf = NegInf"
| "double_mul NegInf PosInf = NegInf"
| "double_mul NegInf NegInf = PosInf"

text \<open>
  \<^verbatim>\<open>Math.round\<close>: the nearest integer, a tie going to the larger one; the result is exact
  for a double, and a non-finite number is returned as it is.
\<close>

fun Math_round :: "jsnum \<Rightarrow> jsnum" where
  "Math_round (Fin r) = Fin (of_int \<lfloor>r + 1 / 2\<rfloor>)"
| "Math_round PosInf = PosInf"
| "Math_round NegInf = NegInf"
| "Math_round NaN = NaN"

section \<open>Numbers as text\<close>

text \<open>
  The decimal digits of a natural number, most significant first; \<open>0\<close> is \<open>''0''\<close>.
\<close>

definition digit_char :: "nat \<Rightarrow> char" where
  "digit_char d = ''0123456789'' ! d"

fun decimal :: "nat \<Rightarrow> string" where
  "decimal n = (if n < 10 then [digit_char n] else decimal (n div 10) @ [digit_char (n mod 10)])"

declare decimal.simps [simp del]

text \<open>
  \<^verbatim>\<open>Number.prototype.toString\<close> prints the shortest digits that identify the double: for a
  positive integral \<open>x\<close> of \<open>m\<close> digits, the least \<open>k\<close> and a \<open>k\<close>-digit \<open>s\<close> such that
  \<open>s * 10\<^sup>m\<^sup>-\<^sup>k\<close> rounds to \<open>x\<close>, the candidate nearest to \<open>x\<close> when both neighbours do (the
  even one on a tie). \<open>shortest_digits x m k\<close> searches from \<open>k\<close> upwards and ends at
  \<open>k = m\<close> with the digits of \<open>x\<close> itself.
\<close>

function shortest_digits :: "nat \<Rightarrow> nat \<Rightarrow> nat \<Rightarrow> nat \<times> nat" where
  "shortest_digits x m k =
     (if m \<le> k then (m, x)
      else
        let q = 10 ^ (m - k);
            lo = x div q;
            hi = lo + 1;
            ok_lo = (to_double (real (lo * q)) = Fin (real x));
            ok_hi = (hi < 10 ^ k \<and> to_double (real (hi * q)) = Fin (real x))
        in if ok_lo \<and> ok_hi
           then (if x - lo * q < hi * q - x then (k, lo)
                 else if hi * q - x < x - lo * q then (k, hi)
                 else if even lo then (k, lo) else (k, hi))
           else if ok_lo then (k, lo)
           else if ok_hi then (k, hi)
           else shortest_digits x m (Suc k))"
  by pat_completeness auto
termination
  by (relation "measure (\<lambda>(x, m, k). m - k)") auto

declare shortest_digits.simps [simp del]

text \<open>
  The text of a positive integral double \<open>x\<close>: with \<open>n\<close> the number of digits before the
  point of the shortest representation (one more than the digits of \<open>x\<close> when \<open>10\<^sup>m\<close>
  already rounds to \<open>x\<close>), the digits of \<open>s\<close> followed by \<open>n - k\<close> zeros up to \<open>n = 21\<close>,
  and exponent notation beyond.
\<close>

definition integer_toString :: "nat \<Rightarrow> string" where
  "integer_toString x =
     (let m = length (decimal x);
          nks = (if to_double (10 ^ m) = Fin (real x) then (m + 1, 1, 1)
                 else (m, shortest_digits x m 1));
          n = fst nks; k = fst (snd nks); s = snd (snd nks)
      in if n \<le> 21 then decimal s @ replicate (n - k) (CHR ''0'')
         else if k = 1 then decimal s @ ''e+'' @ decimal (n - 1)
         else take 1 (decimal s) @ ''.'' @ drop 1 (decimal s) @ ''e+'' @ decimal (n - 1))"

text \<open>
  \<^verbatim>\<open>Number.prototype.toString\<close> as the component uses it, on integral numbers only (the
  results of \<^verbatim>\<open>Math.round\<close>, and the doubles of magnitude \<open>10\<^sup>2\<^sup>1\<close> and more, which are
  all integral).
\<close>

definition Number_toString :: "jsnum \<Rightarrow> string" where
  "Number_toString x =
     (case x of
        NaN \<Rightarrow> ''NaN''
      | PosInf \<Rightarrow> ''Infinity''
      | NegInf \<Rightarrow> ''-Infinity''
      | Fin r \<Rightarrow>
          if r = 0 then ''0''
          else if r < 0 then ''-'' @ integer_toString (nat \<lfloor>- r\<rfloor>)
          else integer_toString (nat \<lfloor>r\<rfloor>))"

text \<open>
  \<^verbatim>\<open>Number.prototype.toFixed(f)\<close>, after the steps of the language definition:
  a non-finite number gives its name; the sign is split off; a magnitude from \<open>10\<^sup>2\<^sup>1\<close> on
  is printed as \<^verbatim>\<open>toString\<close> prints it; otherwise \<open>n\<close> is the integer with \<open>n / 10\<^sup>f\<close>
  nearest to the magnitude (the larger one on a tie), its digits are padded with zeros to
  \<open>f + 1\<close> characters and the point is put before the last \<open>f\<close> of them. The source calls
  it with 0, 1 and 3 digits, inside the range for which it is defined.
\<close>

definition toFixed :: "nat \<Rightarrow> jsnum \<Rightarrow> string" where
  "toFixed f x =
     (case x of
        NaN \<Rightarrow> ''NaN''
      | PosInf \<Rightarrow> ''Infinity''
      | NegInf \<Rightarrow> ''-Infinity''
      | Fin r \<Rightarrow>
          (let s = (if r < 0 then ''-'' else []);
               a = (if r < 0 then - r else r)
           in if 10 ^ 21 \<le> a then s @ Number_toString (Fin a)
              else
                let n = nat \<lfloor>a * 10 ^ f + 1 / 2\<rfloor>;
                    m = decimal n
                in if f \<noteq> 0
                   then
                     let k = length m;
                         m' = (if k \<le> f then replicate (f + 1 - k) (CHR ''0'') @ m else m);
                         k' = (if k \<le> f then f + 1 else k)
                     in s @ take (k' - f) m' @ ''.'' @ drop (k' - f) m'
                   else s @ m))"

section \<open>Data model\<close>

text \<open>
  The coordinates of a point may be any number, so that a detection with non-finite
  coordinates can be given to the renderer.
\<close>

record point =
  px :: jsnum
  py :: jsnum

record bbox =
  x1 :: real
  y1 :: real
  x2 :: real
  y2 :: real

record vertices =
  top_left :: point
  top_right :: point
  bottom_left :: point
  bottom_right :: point

record dimensions =
  width :: real
  height :: real

record DetectionData =
  det_id :: int
  class_name :: string
  confidence :: real
  det_bbox :: bbox
  det_vertices :: vertices
  center_point :: point
  area :: real
  det_dimensions :: dimensions
  matched_request :: bool

datatype CoordinateFormat = Pixels | Percentage | Normalized

text \<open>The properties of the component that the modelled functions read.\<close>

record props =
  imageWidth :: real
  imageHeight :: real
  detections :: "DetectionData list"
  exactDimensions :: bool

section \<open>Display extents and scale factors\<close>

text \<open>The extents \<^verbatim>\<open>getScaledDimensions\<close> returns and \<^verbatim>\<open>displayDimensions\<close> holds.\<close>

record extents =
  ext_width :: jsnum
  ext_height :: jsnum

text \<open>
  \<^verbatim>\<open>getScaledDimensions\<close>: the quotient \<^verbatim>\<open>imageWidth / imageHeight\<close> is computed first,
  as a double, and used on the branch where \<^verbatim>\<open>imageHeight > 600\<close>; its product with the
  height is again a double, which \<^verbatim>\<open>Math.round\<close> rounds.
\<close>

definition getScaledDimensions :: "props \<Rightarrow> extents" where
  "getScaledDimensions p =
     (if exactDimensions p
      then \<lparr>ext_width = Fin (imageWidth p), ext_height = Fin (imageHeight p)\<rparr>
      else
        let maxHeight = 600;
            aspectRatio = double_div (Fin (imageWidth p)) (Fin (imageHeight p))
        in if imageHeight p \<le> maxHeight
           then \<lparr>ext_width = Fin (imageWidth p), ext_height = Fin (imageHeight p)\<rparr>
           else
             let scaledHeight = maxHeight;
                 scaledWidth = Math_round (double_mul (Fin scaledHeight) aspectRatio)
             in \<lparr>ext_width = scaledWidth, ext_height = Fin scaledHeight\<rparr>)"

text \<open>
  \<^verbatim>\<open>updateDimensions\<close> sets the display dimensions and the scale factors; the pair it
  stores is returned. The scale factors divide by the image extents, unguarded.
\<close>

definition updateDimensions :: "props \<Rightarrow> extents \<times> (jsnum \<times> jsnum)" where
  "updateDimensions p =
     (if exactDimensions p
      then (\<lparr>ext_width = Fin (imageWidth p), ext_height = Fin (imageHeight p)\<rparr>, (Fin 1, Fin 1))
      else
        let scaledDimensions = getScaledDimensions p
        in (\<lparr>ext_width = ext_width scaledDimensions, ext_height = ext_height scaledDimensions\<rparr>,
            (js_div (ext_width scaledDimensions) (Fin (imageWidth p)),
             js_div (ext_height scaledDimensions) (Fin (imageHeight p)))))"

section \<open>Coordinate formatting\<close>

datatype axis = AxisX | AxisY

text \<open>
  \<^verbatim>\<open>formatCoordinate\<close>: the format is the state variable \<^verbatim>\<open>coordinateFormat\<close>, the axis
  argument is optional. The divisions by an image extent are unguarded, and the quotient
  and its product with 100 are doubles.
\<close>

definition formatCoordinate ::
    "props \<Rightarrow> CoordinateFormat \<Rightarrow> real \<Rightarrow> axis option \<Rightarrow> string" where
  "formatCoordinate p coordinateFormat v ax =
     (case coordinateFormat of
        Percentage \<Rightarrow>
          (let maxValue = (if ax = Some AxisX then imageWidth p
                           else if ax = Some AxisY then imageHeight p
                           else max (imageWidth p) (imageHeight p))
           in toFixed 1 (double_mul (double_div (Fin v) (Fin maxValue)) (Fin 100)) @ ''%'')
      | Normalized \<Rightarrow>
          (let normalizedMax = (if ax = Some AxisX then imageWidth p
                                else if ax = Some AxisY then imageHeight p
                                else max (imageWidth p) (imageHeight p))
           in toFixed 3 (double_div (Fin v) (Fin normalizedMax)))
      | Pixels \<Rightarrow> Number_toString (Math_round (Fin v)))"

definition formatCoordinatePair :: "props \<Rightarrow> CoordinateFormat \<Rightarrow> point \<Rightarrow> string" where
  "formatCoordinatePair p coordinateFormat pt =
     (case coordinateFormat of
        Percentage \<Rightarrow>
          toFixed 1 (double_mul (double_div (px pt) (Fin (imageWidth p))) (Fin 100)) @ ''%, '' @
          toFixed 1 (double_mul (double_div (py pt) (Fin (imageHeight p))) (Fin 100)) @ ''%''
      | Normalized \<Rightarrow>
          toFixed 3 (double_div (px pt) (Fin (imageWidth p))) @ '', '' @
          toFixed 3 (double_div (py pt) (Fin (imageHeight p)))
      | Pixels \<Rightarrow>
          Number_toString (Math_round (px pt)) @ '', '' @
          Number_toString (Math_round (py pt)))"

section \<open>Interaction state\<close>

text \<open>
  What \<^verbatim>\<open>getBoundingClientRect\<close> returns, and the two element references of the
  component, each \<open>None\<close> while its element is not mounted.
\<close>

record rect =
  rect_left :: real
  rect_top :: real
  rect_width :: real
  rect_height :: real

record refs =
  containerRef :: "rect option"
  imageRef :: "rect option"

record RulerPoint =
  ruler_x :: real
  ruler_y :: real
  imageX :: jsnum
  imageY :: jsnum

record CoordinatePopupData =
  popup_detection :: DetectionData
  popup_x :: real
  popup_y :: real

text \<open>
  The tooltip's detection is what \<^verbatim>\<open>detections.find\<close> returned: \<open>None\<close> is
  \<^verbatim>\<open>undefined\<close>, which the non-null assertion of the source lets through unchanged.
\<close>

record TooltipData =
  tooltip_detection :: "DetectionData option"
  tooltip_x :: real
  tooltip_y :: real

text \<open>
  The state variables of the component, then the selection (owned by the parent, read as
  the property \<^verbatim>\<open>selectedDetectionId\<close> and written through \<^verbatim>\<open>onDetectionSelect\<close>), then
  what the component does to its environment: the texts passed to the clipboard, the lines
  written by \<^verbatim>\<open>console.error\<close>, and the delays of the pending timeouts (each pending
  timeout resets \<^verbatim>\<open>copiedCoordinate\<close>).
\<close>

record state =
  hoveredDetection :: "int option"
  tooltipData :: "TooltipData option"
  coordinatePopup :: "CoordinatePopupData option"
  coordinateFormat :: CoordinateFormat
  rulerMode :: bool
  rulerPoints :: "RulerPoint list"
  copiedCoordinate :: "string option"
  mousePosition :: "(jsnum \<times> jsnum) option"
  displayDimensions :: extents
  scaleFactors :: "jsnum \<times> jsnum"
  selectedDetectionId :: "int option"
  clipboard_writes :: "string list"
  console_errors :: "string list"
  timeouts :: "nat list"

definition initial_state :: state where
  "initial_state =
     \<lparr>hoveredDetection = None, tooltipData = None, coordinatePopup = None,
      coordinateFormat = Pixels, rulerMode = False, rulerPoints = [],
      copiedCoordinate = None, mousePosition = None,
      displayDimensions = \<lparr>ext_width = Fin 0, ext_height = Fin 0\<rparr>, scaleFactors = (Fin 1, Fin 1),
      selectedDetectionId = None, clipboard_writes = [], console_errors = [],
      timeouts = []\<rparr>"

subsection \<open>Coordinate mapping\<close>

definition getImageCoordinates :: "refs \<Rightarrow> props \<Rightarrow> real \<Rightarrow> real \<Rightarrow> jsnum \<times> jsnum" where
  "getImageCoordinates r p clientX clientY =
     (case imageRef r of
        None \<Rightarrow> (Fin 0, Fin 0)
      | Some rc \<Rightarrow>
          (js_mul (js_div (Fin (clientX - rect_left rc)) (Fin (rect_width rc))) (Fin (imageWidth p)),
           js_mul (js_div (Fin (clientY - rect_top rc)) (Fin (rect_height rc))) (Fin (imageHeight p))))"

text \<open>
  The scaling \<^verbatim>\<open>renderBoundingBox\<close> applies to every vertex and to the centre point:
  each coordinate times the scale factor of its axis.
\<close>

definition toDisplaySpace :: "jsnum \<times> jsnum \<Rightarrow> jsnum \<times> jsnum \<Rightarrow> jsnum \<times> jsnum" where
  "toDisplaySpace pt sf = (js_mul (fst pt) (fst sf), js_mul (snd pt) (snd sf))"

subsection \<open>Event handlers\<close>

definition handleMouseMove :: "refs \<Rightarrow> props \<Rightarrow> real \<Rightarrow> real \<Rightarrow> state \<Rightarrow> state" where
  "handleMouseMove r p clientX clientY s =
     (let imageCoords = getImageCoordinates r p clientX clientY;
          s1 = s\<lparr>mousePosition := Some imageCoords\<rparr>
      in case hoveredDetection s of
           None \<Rightarrow> s1
         | Some h \<Rightarrow>
             (case containerRef r of
                None \<Rightarrow> s1
              | Some rc \<Rightarrow>
                  s1\<lparr>tooltipData := Some
                       \<lparr>tooltip_detection = find (\<lambda>d. det_id d = h) (detections p),
                        tooltip_x = clientX - rect_left rc,
                        tooltip_y = clientY - rect_top rc\<rparr>\<rparr>))"

definition handleMouseLeave :: "state \<Rightarrow> state" where
  "handleMouseLeave s = s\<lparr>hoveredDetection := None, tooltipData := None, mousePosition := None\<rparr>"

text \<open>
  \<^verbatim>\<open>handleBoxClick\<close> returns the new state and whether it stopped the propagation of
  the event, which it does first and always.
\<close>

definition handleBoxClick :: "refs \<Rightarrow> DetectionData \<Rightarrow> real \<Rightarrow> real \<Rightarrow> state \<Rightarrow> state \<times> bool" where
  "handleBoxClick r detection clientX clientY s =
     (let stopped = True
      in if rulerMode s then (s, stopped)
         else case containerRef r of
                None \<Rightarrow> (s, stopped)
              | Some rc \<Rightarrow>
                  (s\<lparr>coordinatePopup := Some
                       \<lparr>popup_detection = detection,
                        popup_x = clientX - rect_left rc,
                        popup_y = clientY - rect_top rc\<rparr>,
                     selectedDetectionId := Some (det_id detection)\<rparr>, stopped))"

text \<open>The update function \<^verbatim>\<open>handleImageClick\<close> passes to \<^verbatim>\<open>setRulerPoints\<close>.\<close>

definition setRulerPoints_update :: "RulerPoint \<Rightarrow> RulerPoint list \<Rightarrow> RulerPoint list" where
  "setRulerPoints_update newPoint prev = (if 2 \<le> length prev then [newPoint] else prev @ [newPoint])"

definition handleImageClick :: "refs \<Rightarrow> props \<Rightarrow> real \<Rightarrow> real \<Rightarrow> state \<Rightarrow> state" where
  "handleImageClick r p clientX clientY s =
     (if rulerMode s then
        (let imageCoords = getImageCoordinates r p clientX clientY
         in case containerRef r of
              None \<Rightarrow> s
            | Some rc \<Rightarrow>
                (let newPoint = \<lparr>ruler_x = clientX - rect_left rc,
                                 ruler_y = clientY - rect_top rc,
                                 imageX = fst imageCoords,
                                 imageY = snd imageCoords\<rparr>
                 in s\<lparr>rulerPoints := setRulerPoints_update newPoint (rulerPoints s)\<rparr>))
      else s\<lparr>coordinatePopup := None, selectedDetectionId := None\<rparr>)"

definition clearRuler :: "state \<Rightarrow> state" where
  "clearRuler s = s\<lparr>rulerPoints := []\<rparr>"

text \<open>The click handler of the ruler button.\<close>

definition toggleRuler :: "state \<Rightarrow> state" where
  "toggleRuler s =
     (let s1 = s\<lparr>rulerMode := \<not> rulerMode s\<rparr>
      in if \<not> rulerMode s then clearRuler s1 else s1)"

text \<open>
  \<^verbatim>\<open>copyToClipboard\<close>: \<open>ok\<close> tells whether the promise of
  \<^verbatim>\<open>navigator.clipboard.writeText\<close> is fulfilled or rejected. A rejection is caught and
  written to the console.
\<close>

definition copyToClipboard :: "bool \<Rightarrow> string \<Rightarrow> string \<Rightarrow> state \<Rightarrow> state" where
  "copyToClipboard ok txt label s =
     (let s1 = s\<lparr>clipboard_writes := clipboard_writes s @ [txt]\<rparr>
      in if ok
         then s1\<lparr>copiedCoordinate := Some label, timeouts := timeouts s1 @ [2000]\<rparr>
         else s1\<lparr>console_errors := console_errors s1 @ [''Failed to copy:'']\<rparr>)"

subsection \<open>Events\<close>

text \<open>
  The events the rendered elements are subscribed to. A pointer event on the path or on
  a corner marker of a detection carries that detection; a click there is handled by
  \<^verbatim>\<open>handleBoxClick\<close> and reaches the handler of the surface only if its propagation
  was not stopped.
\<close>

datatype event =
    MouseMove real real
  | MouseLeave
  | MouseEnterShape DetectionData
  | ClickShape DetectionData real real
  | ClickSurface real real
  | SetCoordinateFormat CoordinateFormat
  | ToggleRuler
  | ClearRuler
  | ClosePopup
  | Copy bool string string
  | TimeoutFires
  | UpdateDimensions

fun step :: "refs \<Rightarrow> props \<Rightarrow> event \<Rightarrow> state \<Rightarrow> state" where
  "step r p (MouseMove clientX clientY) s = handleMouseMove r p clientX clientY s"
| "step r p MouseLeave s = handleMouseLeave s"
| "step r p (MouseEnterShape d) s = s\<lparr>hoveredDetection := Some (det_id d)\<rparr>"
| "step r p (ClickShape d clientX clientY) s =
     (case handleBoxClick r d clientX clientY s of
        (s1, stopped) \<Rightarrow> if stopped then s1 else handleImageClick r p clientX clientY s1)"
| "step r p (ClickSurface clientX clientY) s = handleImageClick r p clientX clientY s"
| "step r p (SetCoordinateFormat f) s = s\<lparr>coordinateFormat := f\<rparr>"
| "step r p ToggleRuler s = toggleRuler s"
| "step r p ClearRuler s = clearRuler s"
| "step r p ClosePopup s = s\<lparr>coordinatePopup := None\<rparr>"
| "step r p (Copy ok txt label) s = copyToClipboard ok txt label s"
| "step r p TimeoutFires s =
     (case timeouts s of
        [] \<Rightarrow> s
      | t # ts \<Rightarrow> s\<lparr>copiedCoordinate := None, timeouts := ts\<rparr>)"
| "step r p UpdateDimensions s =
     (case updateDimensions p of
        (dd, sf) \<Rightarrow> s\<lparr>displayDimensions := dd, scaleFactors := sf\<rparr>)"

fun run :: "refs \<Rightarrow> props \<Rightarrow> event list \<Rightarrow> state \<Rightarrow> state" where
  "run r p [] s = s"
| "run r p (e # es) s = run r p es (step r p e s)"

section \<open>Rendering\<close>

text \<open>
  The rendered elements are kept as data: the path of a detection is the list of its
  commands rather than the text of the attribute \<^verbatim>\<open>d\<close>, and an attribute holding a
  number keeps the number.
\<close>

datatype path_cmd = MoveTo jsnum jsnum | LineTo jsnum jsnum | ClosePath

record line_view =
  line_x1 :: jsnum
  line_y1 :: jsnum
  line_x2 :: jsnum
  line_y2 :: jsnum

record box_view =
  bv_path :: "path_cmd list"
  bv_stroke :: string
  bv_strokeWidth :: real
  bv_strokeDasharray :: string
  bv_opacity :: real
  bv_corners :: "(jsnum \<times> jsnum) list"
  bv_corner_r :: real
  bv_corner_opacity :: real
  bv_crosshair :: "(line_view \<times> line_view) option"
  bv_label_x :: jsnum
  bv_label_y :: jsnum
  bv_label :: string

definition renderBoundingBox :: "state \<Rightarrow> DetectionData \<Rightarrow> box_view" where
  "renderBoundingBox s detection =
     (let vs = det_vertices detection;
          isSelected = (selectedDetectionId s = Some (det_id detection));
          isHovered = (hoveredDetection s = Some (det_id detection));
          s_top_left = toDisplaySpace (px (top_left vs), py (top_left vs)) (scaleFactors s);
          s_top_right = toDisplaySpace (px (top_right vs), py (top_right vs)) (scaleFactors s);
          s_bottom_left =
            toDisplaySpace (px (bottom_left vs), py (bottom_left vs)) (scaleFactors s);
          s_bottom_right =
            toDisplaySpace (px (bottom_right vs), py (bottom_right vs)) (scaleFactors s);
          pathData =
            [MoveTo (fst s_top_left) (snd s_top_left),
             LineTo (fst s_top_right) (snd s_top_right),
             LineTo (fst s_bottom_right) (snd s_bottom_right),
             LineTo (fst s_bottom_left) (snd s_bottom_left),
             ClosePath];
          color = (if matched_request detection then ''#22c55e'' else ''#f97316'');
          strokeWidth = (if isSelected then 3 else if isHovered then 2.5 else 2);
          opacity = (if isHovered then 0.8 else 0.6);
          c = toDisplaySpace (px (center_point detection), py (center_point detection))
                (scaleFactors s)
      in \<lparr>bv_path = pathData,
          bv_stroke = color,
          bv_strokeWidth = strokeWidth,
          bv_strokeDasharray = (if isSelected then ''5,5'' else ''none''),
          bv_opacity = opacity,
          bv_corners = [s_top_left, s_top_right, s_bottom_left, s_bottom_right],
          bv_corner_r = (if isSelected then 4 else 3),
          bv_corner_opacity = (if isHovered \<or> isSelected then 1 else 0.7),
          bv_crosshair =
            (if isSelected
             then Some
               (\<lparr>line_x1 = js_add (fst c) (Fin (- 8)), line_y1 = snd c,
                 line_x2 = js_add (fst c) (Fin 8), line_y2 = snd c\<rparr>,
                \<lparr>line_x1 = fst c, line_y1 = js_add (snd c) (Fin (- 8)),
                 line_x2 = fst c, line_y2 = js_add (snd c) (Fin 8)\<rparr>)
             else None),
          bv_label_x = fst s_top_left,
          bv_label_y = js_add (snd s_top_left) (Fin (- 8)),
          bv_label =
            class_name detection @ '' ('' @ toFixed 0 (double_mul (Fin (confidence detection)) (Fin 100)) @ ''%)''\<rparr>)"

text \<open>
  The hover tooltip. Reading a property of \<^verbatim>\<open>undefined\<close> throws a \<^verbatim>\<open>TypeError\<close>, and
  the tooltip reads \<^verbatim>\<open>tooltipData.detection.class_name\<close> first.
\<close>

datatype error = TypeError

record tooltip_view =
  tv_left :: real
  tv_top :: real
  tv_class_name :: string
  tv_confidence :: string
  tv_center :: string
  tv_size_width :: string
  tv_size_height :: string

definition renderTooltip :: "props \<Rightarrow> state \<Rightarrow> error + tooltip_view option" where
  "renderTooltip p s =
     (case tooltipData s of
        None \<Rightarrow> Inr None
      | Some t \<Rightarrow>
          (case tooltip_detection t of
             None \<Rightarrow> Inl TypeError
           | Some d \<Rightarrow>
               Inr (Some
                 \<lparr>tv_left = tooltip_x t + 10,
                  tv_top = tooltip_y t - 10,
                  tv_class_name = class_name d,
                  tv_confidence = toFixed 1 (double_mul (Fin (confidence d)) (Fin 100)) @ ''%'',
                  tv_center = formatCoordinatePair p (coordinateFormat s) (center_point d),
                  tv_size_width =
                    formatCoordinate p (coordinateFormat s) (width (det_dimensions d)) None,
                  tv_size_height =
                    formatCoordinate p (coordinateFormat s) (height (det_dimensions d)) None\<rparr>)))"

text \<open>
  What one rendering of the component yields for the detections and the tooltip: the
  first exception thrown, or the elements.
\<close>

definition render :: "props \<Rightarrow> state \<Rightarrow> error + (box_view list \<times> tooltip_view option)" where
  "render p s =
     (let boxes = map (renderBoundingBox s) (detections p)
      in case renderTooltip p s of
           Inl e \<Rightarrow> Inl e
         | Inr t \<Rightarrow> Inr (boxes, t))"

section \<open>Statements of the specification and example inputs\<close>


text \<open>
  The vertices of a detection are consistent with its bounding box when they are the four
  corners of the box; the rectangle of the box, scaled to display space, is the path from
  its top left corner through the top right and the bottom right to the bottom left one.
\<close>

definition vertices_consistent :: "DetectionData \<Rightarrow> bool" where
  "vertices_consistent d =
     (let b = det_bbox d; vs = det_vertices d
      in top_left vs = \<lparr>px = Fin (x1 b), py = Fin (y1 b)\<rparr> \<and>
         top_right vs = \<lparr>px = Fin (x2 b), py = Fin (y1 b)\<rparr> \<and>
         bottom_left vs = \<lparr>px = Fin (x1 b), py = Fin (y2 b)\<rparr> \<and>
         bottom_right vs = \<lparr>px = Fin (x2 b), py = Fin (y2 b)\<rparr>)"

definition bbox_rectangle :: "state \<Rightarrow> DetectionData \<Rightarrow> path_cmd list" where
  "bbox_rectangle s d =
     (let b = det_bbox d;
          tl = toDisplaySpace (Fin (x1 b), Fin (y1 b)) (scaleFactors s);
          tr = toDisplaySpace (Fin (x2 b), Fin (y1 b)) (scaleFactors s);
          br = toDisplaySpace (Fin (x2 b), Fin (y2 b)) (scaleFactors s);
          bl = toDisplaySpace (Fin (x1 b), Fin (y2 b)) (scaleFactors s)
      in [MoveTo (fst tl) (snd tl), LineTo (fst tr) (snd tr), LineTo (fst br) (snd br),
          LineTo (fst bl) (snd bl), ClosePath])"

text \<open>
  What the user sees of a state: the state variables, without the record of the calls the
  component made to the clipboard and to the console.
\<close>

definition displayed :: "state \<Rightarrow> state" where
  "displayed s = s\<lparr>clipboard_writes := [], console_errors := []\<rparr>"

text \<open>The events that are movements of the pointer over the surface.\<close>

fun is_MouseMove :: "event \<Rightarrow> bool" where
  "is_MouseMove (MouseMove clientX clientY) = True"
| "is_MouseMove e = False"

text \<open>
  Reading a text back as a number: the value of a digit and of a sequence of digits, an
  integer numeral with an optional minus sign, and a numeral with exactly \<open>f\<close> decimals
  (an optional minus sign, at least one digit, the point, \<open>f\<close> digits). A number rounded
  to \<open>f\<close> decimals is the nearest multiple of \<open>10\<^sup>-\<^sup>f\<close>, a tie going away from zero.
\<close>

definition digit_value :: "char \<Rightarrow> nat" where
  "digit_value c = length (takeWhile (\<lambda>d. d \<noteq> c) ''0123456789'')"

definition is_digit :: "char \<Rightarrow> bool" where
  "is_digit c = (c \<in> set ''0123456789'')"

definition digits_value :: "string \<Rightarrow> nat" where
  "digits_value cs = foldl (\<lambda>a c. 10 * a + digit_value c) 0 cs"

definition read_nat :: "string \<Rightarrow> nat option" where
  "read_nat cs = (if cs \<noteq> [] \<and> list_all is_digit cs then Some (digits_value cs) else None)"

definition read_int :: "string \<Rightarrow> int option" where
  "read_int cs =
     (if take 1 cs = ''-'' then map_option (\<lambda>n. - int n) (read_nat (drop 1 cs))
      else map_option int (read_nat cs))"

definition read_fixed :: "nat \<Rightarrow> string \<Rightarrow> real option" where
  "read_fixed f cs =
     (let neg = (take 1 cs = ''-'');
          body = (if neg then drop 1 cs else cs);
          k = length body
      in if f + 2 \<le> k \<and> body ! (k - f - 1) = CHR ''.''
         then (case (read_nat (take (k - f - 1) body), read_nat (drop (k - f) body)) of
                 (Some a, Some b) \<Rightarrow> Some ((if neg then - 1 else 1) * (real a + real b / 10 ^ f))
               | _ \<Rightarrow> None)
         else None)"

definition round_to :: "nat \<Rightarrow> real \<Rightarrow> real" where
  "round_to f x = (if x < 0 then - 1 else 1) * of_int \<lfloor>\<bar>x\<bar> * 10 ^ f + 1 / 2\<rfloor> / 10 ^ f"

text \<open>
  The extent a coordinate is measured against: the image width for a value tagged \<open>x\<close>,
  the image height for one tagged \<open>y\<close>, the larger of both for an untagged magnitude.
\<close>

definition axisExtent :: "props \<Rightarrow> axis option \<Rightarrow> real" where
  "axisExtent p ax =
     (case ax of
        Some AxisX \<Rightarrow> imageWidth p
      | Some AxisY \<Rightarrow> imageHeight p
      | None \<Rightarrow> max (imageWidth p) (imageHeight p))"

text \<open>
  Within one mount of the overlay the detections do not change, and a pointer event on a
  shape carries one of the detections that were drawn. A state is free of stale
  references when the hovered identifier, the detection of the tooltip, the detection of
  the popup and the selected identifier all belong to the current detections.
\<close>

fun event_ok :: "props \<Rightarrow> event \<Rightarrow> bool" where
  "event_ok p (MouseEnterShape d) = (d \<in> set (detections p))"
| "event_ok p (ClickShape d clientX clientY) = (d \<in> set (detections p))"
| "event_ok p e = True"

definition stale_free :: "props \<Rightarrow> state \<Rightarrow> bool" where
  "stale_free p s =
     ((case hoveredDetection s of
         None \<Rightarrow> True
       | Some h \<Rightarrow> h \<in> det_id ` set (detections p))
      \<and> (case tooltipData s of
           None \<Rightarrow> True
         | Some t \<Rightarrow>
             (case tooltip_detection t of
                None \<Rightarrow> False
              | Some d \<Rightarrow> d \<in> set (detections p)))
      \<and> (case coordinatePopup s of
           None \<Rightarrow> True
         | Some c \<Rightarrow> popup_detection c \<in> set (detections p))
      \<and> (case selectedDetectionId s of
           None \<Rightarrow> True
         | Some i \<Rightarrow> i \<in> det_id ` set (detections p)))"

text \<open>
  Example inputs: an image of 1920 by 1080 pixels with one detection, mounted at the
  origin of the viewport with the extents \<^verbatim>\<open>getScaledDimensions\<close> gives it; a detection
  whose vertices are not the corners of its box, and one with a vertex that is not a
  number; an image of 921 by 720 pixels; and the double nearest to 123.456.
\<close>

definition example_detection :: DetectionData where
  "example_detection =
     \<lparr>det_id = 7, class_name = ''cat'', confidence = 0.9,
      det_bbox = \<lparr>x1 = 100, y1 = 200, x2 = 300, y2 = 400\<rparr>,
      det_vertices =
        \<lparr>top_left = \<lparr>px = Fin 100, py = Fin 200\<rparr>, top_right = \<lparr>px = Fin 300, py = Fin 200\<rparr>,
         bottom_left = \<lparr>px = Fin 100, py = Fin 400\<rparr>,
         bottom_right = \<lparr>px = Fin 300, py = Fin 400\<rparr>\<rparr>,
      center_point = \<lparr>px = Fin 200, py = Fin 300\<rparr>, area = 40000,
      det_dimensions = \<lparr>width = 200, height = 200\<rparr>, matched_request = True\<rparr>"

definition skewed_detection :: DetectionData where
  "skewed_detection =
     example_detection
       \<lparr>det_vertices :=
          \<lparr>top_left = \<lparr>px = Fin 120, py = Fin 180\<rparr>, top_right = \<lparr>px = Fin 320, py = Fin 220\<rparr>,
           bottom_left = \<lparr>px = Fin 80, py = Fin 380\<rparr>,
           bottom_right = \<lparr>px = Fin 280, py = Fin 420\<rparr>\<rparr>\<rparr>"

definition nonfinite_detection :: DetectionData where
  "nonfinite_detection =
     example_detection
       \<lparr>det_vertices :=
          \<lparr>top_left = \<lparr>px = NaN, py = Fin 200\<rparr>, top_right = \<lparr>px = PosInf, py = Fin 200\<rparr>,
           bottom_left = \<lparr>px = Fin 100, py = Fin 400\<rparr>,
           bottom_right = \<lparr>px = Fin 300, py = Fin 400\<rparr>\<rparr>\<rparr>"

definition example_props :: props where
  "example_props =
     \<lparr>imageWidth = 1920, imageHeight = 1080, detections = [example_detection],
      exactDimensions = False\<rparr>"

definition example_refs :: refs where
  "example_refs =
     \<lparr>containerRef = Some \<lparr>rect_left = 0, rect_top = 0, rect_width = 1067, rect_height = 700\<rparr>,
      imageRef = Some \<lparr>rect_left = 0, rect_top = 0, rect_width = 1067, rect_height = 600\<rparr>\<rparr>"

definition tall_props :: props where
  "tall_props = example_props\<lparr>imageWidth := 921, imageHeight := 720\<rparr>"

definition double_123_456 :: real where
  "double_123_456 = 8687443681197687 / 2 ^ 46"

section \<open>Binary64 rounding: bounds\<close>


lemma bit_length_bounds:
  "0 < n \<Longrightarrow> 2 ^ (bit_length n - 1) \<le> n \<and> n < 2 ^ bit_length n"
proof (induction n rule: bit_length.induct)
  case (1 n)
  show ?case
  proof (cases "n div 2 = 0")
    case True
    with 1(2) have "n = 1" by (simp add: div_eq_0_iff) 
    then show ?thesis by (simp add: bit_length.simps)
  next
    case False
    let ?b = "bit_length (n div 2)"
    from False 1 have ih: "2 ^ (?b - 1) \<le> n div 2" "n div 2 < 2 ^ ?b" by simp_all
    from False have bpos: "0 < ?b" by (subst bit_length.simps) simp
    have bl: "bit_length n = Suc ?b" using 1(2) by (subst bit_length.simps) simp
    from bpos have "(2::nat) ^ ?b = 2 * 2 ^ (?b - 1)" by (cases ?b) simp_all
    with ih(1) have lo: "2 ^ ?b \<le> n" by linarith
    from ih(2) have "n div 2 + 1 \<le> 2 ^ ?b" by simp
    then have hi: "n < 2 * 2 ^ ?b" by linarith
    from lo hi bl show ?thesis by simp
  qed
qed

lemma pow2_powr: "pow2 e = 2 powr (of_int e)"
proof (cases "0 \<le> e")
  case True
  then show ?thesis by (simp add: pow2_def powr_realpow [symmetric])
next
  case False
  have "(2::real) ^ nat (- e) = 2 powr (real (nat (- e)))" by (simp add: powr_realpow)
  also have "real (nat (- e)) = - of_int e" using False by simp
  finally have "(2::real) ^ nat (- e) = 2 powr (- of_int e)" .
  then have "1 / (2::real) ^ nat (- e) = 2 powr (of_int e)"
    by (simp add: powr_minus_divide)
  with False show ?thesis by (simp add: pow2_def)
qed

lemma pow2_pos: "0 < pow2 e"
  by (simp add: pow2_powr)

lemma pow2_add: "pow2 (a + b) = pow2 a * pow2 b"
  by (simp add: pow2_powr powr_add)

lemma pow2_mono: "a \<le> b \<Longrightarrow> pow2 a \<le> pow2 b"
  by (simp add: pow2_powr)

lemma pow2_less_iff: "pow2 a < pow2 b \<longleftrightarrow> a < b"
  by (simp add: pow2_powr)

lemma pow2_nat: "pow2 (int n) = 2 ^ n"
  by (simp add: pow2_def)

lemma real_succ_le_pow2: "(n::nat) < 2 ^ k \<Longrightarrow> real n + 1 \<le> 2 ^ k"
proof -
  assume "n < 2 ^ k"
  then have "Suc n \<le> 2 ^ k" by (rule Suc_leI)
  then have "real (Suc n) \<le> real (2 ^ k)" by (simp only: of_nat_le_iff)
  then show ?thesis by simp
qed

lemma real_pow2_le: "2 ^ k \<le> (n::nat) \<Longrightarrow> (2::real) ^ k \<le> real n"
proof -
  assume "2 ^ k \<le> n"
  then have "real (2 ^ k) \<le> real n" by (simp only: of_nat_le_iff)
  then show ?thesis by simp
qed

lemma binade_bounds:
  assumes "x \<noteq> 0"
  shows "pow2 (binade x) \<le> \<bar>x\<bar>" and "\<bar>x\<bar> < pow2 (binade x + 1)"
proof -
  let ?a = "\<bar>x\<bar>"
  from assms have apos: "0 < ?a" by simp
  have "pow2 (binade x) \<le> ?a \<and> ?a < pow2 (binade x + 1)"
  proof (cases "1 \<le> ?a")
    case True
    let ?n = "nat \<lfloor>?a\<rfloor>"
    from True have npos: "0 < ?n" by simp
    from bit_length_bounds [OF npos]
    have b: "2 ^ (bit_length ?n - 1) \<le> ?n" "?n < 2 ^ bit_length ?n" by simp_all
    from npos have blpos: "0 < bit_length ?n" by (subst bit_length.simps) simp
    have e: "binade x = int (bit_length ?n - 1)"
      using True blpos by (simp add: binade_def Let_def)
    have "real ?n \<le> ?a" using True by simp
    moreover have "(2::real) ^ (bit_length ?n - 1) \<le> real ?n"
      using b(1) by (rule real_pow2_le)
    ultimately have "(2::real) ^ (bit_length ?n - 1) \<le> ?a" by linarith
    then have lo: "pow2 (binade x) \<le> ?a" by (simp only: e pow2_nat)
    have "?a < real ?n + 1" using True by linarith
    moreover have "real ?n + 1 \<le> 2 ^ bit_length ?n"
      using b(2) by (rule real_succ_le_pow2)
    moreover have "binade x + 1 = int (bit_length ?n)" using e blpos by simp
    ultimately have hi: "?a < pow2 (binade x + 1)" by (simp only: pow2_nat)
    from lo hi show ?thesis by simp
  next
    case False
    define c where "c = \<lceil>1 / ?a\<rceil>"
    define j where "j = bit_length (nat (c - 1))"
    from False apos have inv: "1 < 1 / ?a" by simp
    have cprops: "1 / ?a \<le> of_int c" "of_int c - 1 < 1 / ?a"
      unfolding c_def by linarith+
    from inv cprops(1) have c2: "2 \<le> c" by linarith
    then have mpos: "0 < nat (c - 1)" by simp
    from bit_length_bounds [OF mpos]
    have b: "2 ^ (j - 1) \<le> nat (c - 1)" "nat (c - 1) < 2 ^ j" by (simp_all add: j_def)
    from mpos have jpos: "0 < j" unfolding j_def by (subst bit_length.simps) simp
    have e: "binade x = - int j" using False by (simp add: binade_def Let_def j_def c_def)
    have m1: "real (nat (c - 1)) + 1 = of_int c" using c2 by simp
    have "real (nat (c - 1)) + 1 \<le> 2 ^ j"
      using b(2) by (rule real_succ_le_pow2)
    with m1 cprops(1) have "1 / ?a \<le> 2 ^ j" by linarith
    then have "1 \<le> 2 ^ j * ?a" using apos by (simp add: field_simps)
    then have lo: "pow2 (binade x) \<le> ?a"
      using jpos by (simp add: e pow2_def field_simps)
    have "(2::real) ^ (j - 1) \<le> real (nat (c - 1))"
      using b(1) by (rule real_pow2_le)
    moreover have "real (nat (c - 1)) < 1 / ?a" using m1 cprops(2) by linarith
    ultimately have "2 ^ (j - 1) < 1 / ?a" by linarith
    then have lt: "2 ^ (j - 1) * ?a < 1" using apos by (simp add: field_simps)
    have hi: "?a < pow2 (binade x + 1)"
    proof (cases "j = 1")
      case True
      with lt e show ?thesis by (simp add: pow2_def)
    next
      case False
      with jpos have j2: "2 \<le> j" by simp
      then have "binade x + 1 = - int (j - 1)" using e by simp
      moreover have "- int (j - 1) < 0" using j2 by simp
      ultimately have p: "pow2 (binade x + 1) = 1 / 2 ^ (j - 1)"
        by (simp add: pow2_def)
      from lt have "?a < 1 / 2 ^ (j - 1)" by (simp add: field_simps)
      then show ?thesis by (simp only: p)
    qed
    from lo hi show ?thesis by simp
  qed
  then show "pow2 (binade x) \<le> \<bar>x\<bar>" and "\<bar>x\<bar> < pow2 (binade x + 1)" by simp_all
qed

lemma round_ties_even_near: "\<bar>of_int (round_ties_even y) - y\<bar> \<le> 1 / 2"
proof -
  define f where "f = \<lfloor>y\<rfloor>"
  have fl: "of_int f \<le> y" "y < of_int f + 1" unfolding f_def by linarith+
  have "round_ties_even y =
      (if y - of_int f < 1 / 2 then f else if 1 / 2 < y - of_int f then f + 1
       else if even f then f else f + 1)"
    by (simp add: round_ties_even_def Let_def f_def)
  then consider "round_ties_even y = f" "y - of_int f \<le> 1 / 2"
    | "round_ties_even y = f + 1" "1 / 2 \<le> y - of_int f"
    by (auto split: if_splits)
  then show ?thesis
  proof cases
    case 1
    with fl show ?thesis by simp
  next
    case 2
    with fl show ?thesis by simp
  qed
qed

lemma round_ties_even_of_int: "round_ties_even (of_int k) = k"
  by (simp add: round_ties_even_def)

lemma round_ties_even_ge: "of_int k \<le> y \<Longrightarrow> k \<le> round_ties_even y"
proof -
  assume "of_int k \<le> y"
  then have "k \<le> \<lfloor>y\<rfloor>" by (simp add: le_floor_iff)
  moreover have "\<lfloor>y\<rfloor> \<le> round_ties_even y"
    by (simp add: round_ties_even_def Let_def)
  ultimately show ?thesis by linarith
qed

lemma pow2_numeral: "pow2 53 = 2 ^ 53" "pow2 (- 1022) = 1 / 2 ^ 1022" "pow2 0 = 1"
  by (simp_all add: pow2_def)

lemma pow2_shift: "pow2 (e - 52) = pow2 e / 2 ^ 52"
proof -
  have "pow2 (e - 52) = pow2 (e + (- 52))" by simp
  also have "\<dots> = pow2 e * pow2 (- 52)" by (rule pow2_add)
  also have "pow2 (- 52) = 1 / 2 ^ 52" by (simp add: pow2_def)
  finally show ?thesis by simp
qed

lemma to_double_error:
  assumes lo: "pow2 (- 1022) \<le> \<bar>x\<bar>" and hi: "\<bar>x\<bar> \<le> 2 ^ 1023"
  shows "\<exists>r. to_double x = Fin r \<and> \<bar>r - x\<bar> \<le> \<bar>x\<bar> / 2 ^ 53"
proof -
  from lo pow2_pos [of "- 1022"] have x0: "x \<noteq> 0" by auto
  define e where "e = binade x"
  define q where "q = pow2 (e - 52)"
  define r where "r = of_int (round_ties_even (x / q)) * q"
  from binade_bounds [OF x0] have b: "pow2 e \<le> \<bar>x\<bar>" "\<bar>x\<bar> < pow2 (e + 1)"
    by (simp_all add: e_def)
  from lo b(2) have "pow2 (- 1022) < pow2 (e + 1)" by linarith
  then have "- 1022 < e + 1" by (simp only: pow2_less_iff)
  then have emax: "max e (- 1022) = e" by simp
  have qpos: "0 < q" by (simp add: q_def pow2_pos)
  have q2: "q = pow2 e / 2 ^ 52" by (simp add: q_def pow2_shift)
  have "\<bar>of_int (round_ties_even (x / q)) - x / q\<bar> \<le> 1 / 2"
    by (rule round_ties_even_near)
  then have "\<bar>of_int (round_ties_even (x / q)) - x / q\<bar> * q \<le> (1 / 2) * q"
    using qpos by (simp only: mult_le_cancel_right_pos)
  moreover have "\<bar>of_int (round_ties_even (x / q)) - x / q\<bar> * q = \<bar>r - x\<bar>"
  proof -
    have "r - x = (of_int (round_ties_even (x / q)) - x / q) * q"
      using qpos by (simp add: r_def field_simps)
    then show ?thesis using qpos by (simp add: abs_mult)
  qed
  ultimately have "\<bar>r - x\<bar> \<le> q / 2" by simp
  also have "q / 2 = pow2 e / 2 ^ 53" by (simp add: q2)
  also have "\<dots> \<le> \<bar>x\<bar> / 2 ^ 53" using b(1) by (simp add: divide_right_mono)
  finally have err: "\<bar>r - x\<bar> \<le> \<bar>x\<bar> / 2 ^ 53" .
  have "\<bar>r\<bar> \<le> \<bar>x\<bar> + \<bar>x\<bar> / 2 ^ 53" using err by linarith
  also have "\<dots> \<le> 2 ^ 1023 + 2 ^ 1023 / 2 ^ 53"
    using hi by (intro add_mono divide_right_mono) simp_all
  also have "\<dots> < 2 ^ 1024" by simp
  finally have fin: "\<not> 2 ^ 1024 \<le> \<bar>r\<bar>" by simp
  have "to_double x = Fin r"
    using x0 fin emax unfolding to_double_def Let_def e_def [symmetric]
    by (simp only: if_False q_def [symmetric] r_def [symmetric])
  with err show ?thesis by blast
qed

lemma to_double_normal:
  assumes "x \<noteq> 0" and "- 1022 \<le> binade x"
    and "r = of_int (round_ties_even (x / pow2 (binade x - 52))) * pow2 (binade x - 52)"
    and "\<bar>r\<bar> < 2 ^ 1024"
  shows "to_double x = Fin r"
proof -
  from assms(2) have "max (binade x) (- 1022) = binade x" by simp
  with assms(1,3,4) show ?thesis
    unfolding to_double_def Let_def by (simp only: if_False) simp
qed

lemma to_double_nat_exact:
  assumes "n \<le> 2 ^ 53"
  shows "to_double (real n) = Fin (real n)"
proof (cases "n = 0")
  case True
  then show ?thesis by (simp add: to_double_def)
next
  case False
  define x where "x = real n"
  define e where "e = binade x"
  from False have x1: "1 \<le> x" and x0: "x \<noteq> 0" by (simp_all add: x_def)
  from assms have "real n \<le> real (2 ^ 53)" by (simp only: of_nat_le_iff)
  then have x53: "x \<le> 2 ^ 53" by (simp add: x_def)
  from binade_bounds [OF x0] x1 have b: "pow2 e \<le> x" "x < pow2 (e + 1)"
    by (simp_all add: e_def)
  from b(2) x1 have "pow2 0 < pow2 (e + 1)" by (simp add: pow2_numeral)
  then have "0 < e + 1" by (simp only: pow2_less_iff)
  then have e0: "0 \<le> e" by simp
  from b(1) x53 have "pow2 e < pow2 54" by (simp add: pow2_def [of 54])
  then have "e < 54" by (simp only: pow2_less_iff)
  then have e53: "e \<le> 53" by simp
  from e0 have emax: "max e (- 1022) = e" by simp
  define q where "q = pow2 (e - 52)"
  have qpos: "0 < q" by (simp add: q_def pow2_pos)
  have "\<exists>k. x / q = of_int k"
  proof (cases "e \<le> 52")
    case True
    then have "q = 1 / 2 ^ nat (52 - e)"
      by (cases "e = 52") (simp_all add: q_def pow2_def)
    then have "x / q = of_int (int n * 2 ^ nat (52 - e))" by (simp add: x_def)
    then show ?thesis by blast
  next
    case False
    with e53 have e: "e = 53" by simp
    with b(1) x53 have "x = 2 ^ 53" by (simp add: pow2_numeral)
    moreover have "q = 2" by (simp add: q_def e pow2_def)
    ultimately have "x / q = of_int (2 ^ 52)" by simp
    then show ?thesis by blast
  qed
  then obtain k where k: "x / q = of_int k" by blast
  then have "of_int (round_ties_even (x / q)) * q = x"
    using qpos by (simp add: round_ties_even_of_int field_simps)
  moreover have "\<not> 2 ^ 1024 \<le> \<bar>x\<bar>"
  proof -
    have "x < 2 ^ 1024" using x53 by (rule le_less_trans) simp
    with x1 show ?thesis by simp
  qed
  ultimately have "to_double x = Fin x"
    using x0 e0 by (intro to_double_normal) (simp_all add: q_def e_def)
  then show ?thesis by (simp add: x_def)
qed

lemma to_double_big:
  assumes "2 ^ 53 \<le> y" and "to_double y = Fin r"
  shows "2 ^ 53 \<le> r"
proof -
  from assms(1) have y0: "y \<noteq> 0" and ypos: "0 < y" by auto
  define e where "e = binade y"
  from binade_bounds [OF y0] ypos have b: "pow2 e \<le> y" "y < pow2 (e + 1)"
    by (simp_all add: e_def)
  from assms(1) b(2) have "pow2 53 < pow2 (e + 1)" by (simp add: pow2_numeral)
  then have "53 < e + 1" by (simp only: pow2_less_iff)
  then have e53: "53 \<le> e" by simp
  then have emax: "max e (- 1022) = e" by simp
  define q where "q = pow2 (e - 52)"
  have qpos: "0 < q" by (simp add: q_def pow2_pos)
  have q2: "q = pow2 e / 2 ^ 52" by (simp add: q_def pow2_shift)
  have "of_int (2 ^ 52) \<le> y / q"
    using b(1) pow2_pos [of e] by (simp add: q2 field_simps)
  then have "2 ^ 52 \<le> round_ties_even (y / q)" by (rule round_ties_even_ge)
  then have "(2::real) ^ 52 \<le> of_int (round_ties_even (y / q))"
    by (metis of_int_le_iff of_int_numeral of_int_power)
  then have "2 ^ 52 * q \<le> of_int (round_ties_even (y / q)) * q"
    using qpos by (simp only: mult_le_cancel_right_pos)
  moreover have "2 ^ 52 * q = pow2 e" by (simp add: q2)
  moreover have "pow2 53 \<le> pow2 e" using e53 by (rule pow2_mono)
  ultimately have big: "2 ^ 53 \<le> of_int (round_ties_even (y / q)) * q"
    by (simp add: pow2_numeral)
  have "to_double y =
      (if 2 ^ 1024 \<le> \<bar>of_int (round_ties_even (y / q)) * q\<bar> then PosInf
       else Fin (of_int (round_ties_even (y / q)) * q))"
    using y0 ypos emax unfolding to_double_def Let_def q_def e_def by (simp only: if_False if_True)
  with assms(2) have "r = of_int (round_ties_even (y / q)) * q"
    by (simp split: if_splits)
  with big show ?thesis by simp
qed

section \<open>Texts of integers\<close>

lemma decimal_length_bounds:
  "0 < x \<Longrightarrow> 10 ^ (length (decimal x) - 1) \<le> x \<and> x < 10 ^ length (decimal x)"
proof (induction x rule: decimal.induct)
  case (1 n)
  show ?case
  proof (cases "n < 10")
    case True
    with 1(2) show ?thesis by (subst (1 2) decimal.simps) simp
  next
    case False
    let ?l = "length (decimal (n div 10))"
    from False have d: "0 < n div 10" by simp
    with False 1 have ih: "10 ^ (?l - 1) \<le> n div 10" "n div 10 < 10 ^ ?l" by simp_all
    have lpos: "0 < ?l" by (subst decimal.simps) simp
    have len: "length (decimal n) = Suc ?l" using False by (subst decimal.simps) simp
    from lpos have "(10::nat) ^ ?l = 10 * 10 ^ (?l - 1)" by (cases ?l) simp_all
    with ih(1) have lo: "10 ^ ?l \<le> n" by linarith
    from ih(2) have "n div 10 + 1 \<le> 10 ^ ?l" by simp
    then have hi: "n < 10 * 10 ^ ?l" by linarith
    from lo hi len show ?thesis by simp
  qed
qed

lemma decimal_times_10: "0 < t \<Longrightarrow> decimal (10 * t) = decimal t @ [CHR ''0'']"
  by (subst decimal.simps) (simp add: digit_char_def)

lemma decimal_times_pow10:
  "0 < t \<Longrightarrow> decimal (t * 10 ^ j) = decimal t @ replicate j (CHR ''0'')"
proof (induction j)
  case 0
  show ?case by simp
next
  case (Suc j)
  have "decimal (t * 10 ^ Suc j) = decimal (10 * (t * 10 ^ j))" by (simp add: mult.commute mult.left_commute)
  also have "\<dots> = decimal (t * 10 ^ j) @ [CHR ''0'']"
    using Suc.prems by (intro decimal_times_10) simp
  also have "\<dots> = decimal t @ replicate (Suc j) (CHR ''0'')"
    using Suc by (simp add: replicate_append_same)
  finally show ?case .
qed

lemma to_double_small_eq:
  assumes "to_double (real y) = Fin (real x)" and "x < 2 ^ 53"
  shows "y = x"
proof (cases "y \<le> 2 ^ 53")
  case True
  then have "to_double (real y) = Fin (real y)" by (rule to_double_nat_exact)
  with assms(1) show ?thesis by simp
next
  case False
  then have "2 ^ 53 \<le> y" by simp
  then have "real (2 ^ 53) \<le> real y" by (simp only: of_nat_le_iff)
  then have "2 ^ 53 \<le> real y" by simp
  from to_double_big [OF this assms(1)] have "real (2 ^ 53) \<le> real x" by simp
  then have "2 ^ 53 \<le> x" by (simp only: of_nat_le_iff)
  with assms(2) show ?thesis by simp
qed


lemma shortest_digits_small:
  assumes "x < 2 ^ 53" and "0 < x" and "shortest_digits x m k = (k', s)"
  shows "s * 10 ^ (m - k') = x \<and> 0 < s \<and> (k \<le> m \<longrightarrow> k' \<le> m)"
  using assms
proof (induction x m k rule: shortest_digits.induct)
  case (1 x m k)
  show ?case
  proof (cases "m \<le> k")
    case True
    then have "shortest_digits x m k = (m, x)"
      by (simp add: shortest_digits.simps [of x m k])
    with 1(4) 1(3) show ?thesis by simp
  next
    case False
    define q :: nat where "q = 10 ^ (m - k)"
    define lo where "lo = x div q"
    define hi where "hi = lo + 1"
    define ok_lo where "ok_lo \<longleftrightarrow> to_double (real (lo * q)) = Fin (real x)"
    define ok_hi where "ok_hi \<longleftrightarrow> hi < 10 ^ k \<and> to_double (real (hi * q)) = Fin (real x)"
    have unf: "shortest_digits x m k =
        (if ok_lo \<and> ok_hi
           then (if x - lo * q < hi * q - x then (k, lo)
                 else if hi * q - x < x - lo * q then (k, hi)
                 else if even lo then (k, lo) else (k, hi))
           else if ok_lo then (k, lo)
           else if ok_hi then (k, hi)
           else shortest_digits x m (Suc k))"
      unfolding q_def lo_def hi_def ok_lo_def ok_hi_def using False
      by (subst shortest_digits.simps) (simp only: Let_def if_False)
    have lo_eq: "lo * q = x" if "ok_lo"
      using that 1(2) unfolding ok_lo_def by (rule to_double_small_eq)
    have hi_eq: "hi * q = x" if "ok_hi"
    proof -
      from that have "to_double (real (hi * q)) = Fin (real x)" by (simp add: ok_hi_def)
      then show ?thesis using 1(2) by (rule to_double_small_eq)
    qed
    have lo_pos: "0 < lo" if "ok_lo"
    proof (cases "lo = 0")
      case True
      with lo_eq [OF that] 1(3) show ?thesis by simp
    next
      case False
      then show ?thesis by simp
    qed
    have hi_pos: "0 < hi" by (simp add: hi_def)
    have kle: "k \<le> m" using False by simp
    consider (a) "(k', s) = (k, lo)" "ok_lo"
      | (b) "(k', s) = (k, hi)" "ok_hi"
      | (c) "shortest_digits x m (Suc k) = (k', s)" "\<not> ok_lo" "\<not> ok_hi"
      using unf 1(4) by (auto split: if_splits)
    then show ?thesis
    proof cases
      case a
      with lo_eq lo_pos kle show ?thesis by (simp add: q_def)
    next
      case b
      with hi_eq hi_pos kle show ?thesis by (simp add: q_def)
    next
      case c
      have nlo: "\<not> (to_double (real (x div 10 ^ (m - k) * 10 ^ (m - k))) = Fin (real x))"
        using c(2) by (simp add: ok_lo_def lo_def q_def)
      have nhi: "\<not> (x div 10 ^ (m - k) + 1 < 10 ^ k \<and>
          to_double (real ((x div 10 ^ (m - k) + 1) * 10 ^ (m - k))) = Fin (real x))"
        using c(3) by (simp add: ok_hi_def hi_def lo_def q_def)
      have ih: "s * 10 ^ (m - k') = x \<and> 0 < s \<and> (Suc k \<le> m \<longrightarrow> k' \<le> m)"
        using False nlo nhi 1(2,3) c(1)
        by (intro 1(1) [where xa = "10 ^ (m - k)" and xb = "x div 10 ^ (m - k)" and xc = "x div 10 ^ (m - k) + 1"]) auto
      show ?thesis
      proof (cases "Suc k \<le> m")
        case True
        with ih show ?thesis by simp
      next
        case False
        then have "shortest_digits x m (Suc k) = (m, x)"
          by (simp add: shortest_digits.simps [of x m "Suc k"])
        with c(1) ih show ?thesis by simp
      qed
    qed
  qed
qed

lemma integer_toString_small:
  assumes "0 < x" and "x < 2 ^ 53"
  shows "integer_toString x = decimal x"
proof -
  define m where "m = length (decimal x)"
  from decimal_length_bounds [OF assms(1)]
  have b: "10 ^ (m - 1) \<le> x" "x < 10 ^ m" by (simp_all add: m_def)
  have no_carry: "to_double (10 ^ m) \<noteq> Fin (real x)"
  proof
    assume "to_double (10 ^ m) = Fin (real x)"
    then have "to_double (real (10 ^ m)) = Fin (real x)" by simp
    then have "10 ^ m = x" using assms(2) by (rule to_double_small_eq)
    with b(2) show False by simp
  qed
  obtain k s where ks: "shortest_digits x m 1 = (k, s)" by (cases "shortest_digits x m 1")
  have mpos: "1 \<le> m"
  proof (cases "m = 0")
    case True
    with b(2) assms(1) show ?thesis by simp
  next
    case False
    then show ?thesis by simp
  qed
  from shortest_digits_small [OF assms(2) assms(1) ks] mpos
  have r: "s * 10 ^ (m - k) = x" "0 < s" "k \<le> m" by simp_all
  have m21: "m \<le> 21"
  proof (rule ccontr)
    assume "\<not> m \<le> 21"
    then have "21 \<le> m - 1" by simp
    then have "(10::nat) ^ 21 \<le> 10 ^ (m - 1)" by (intro power_increasing) simp_all
    with b(1) assms(2) show False by simp
  qed
  have "integer_toString x = decimal s @ replicate (m - k) (CHR ''0'')"
    using no_carry ks m21 by (simp add: integer_toString_def Let_def m_def [symmetric])
  also have "\<dots> = decimal (s * 10 ^ (m - k))"
    using r(2) by (simp add: decimal_times_pow10)
  finally show ?thesis by (simp add: r(1))
qed

section \<open>Texts read back\<close>

lemma digit_char_value: "d < 10 \<Longrightarrow> digit_value (digit_char d) = d \<and> is_digit (digit_char d)"
proof -
  assume "d < 10"
  then have "d \<in> {0, 1, 2, 3, 4, 5, 6, 7, 8, 9}" by auto
  then show ?thesis
    by (auto simp: digit_char_def digit_value_def is_digit_def)
qed

lemma digits_value_snoc: "digits_value (cs @ [c]) = 10 * digits_value cs + digit_value c"
  by (simp add: digits_value_def)

lemma decimal_digits:
  "decimal n \<noteq> [] \<and> list_all is_digit (decimal n) \<and> digits_value (decimal n) = n"
proof (induction n rule: decimal.induct)
  case (1 n)
  show ?case
  proof (cases "n < 10")
    case True
    then show ?thesis
      using digit_char_value [of n]
      by (subst (1 2 3) decimal.simps) (simp add: digits_value_def)
  next
    case False
    have "n mod 10 < 10" by simp
    with False 1 show ?thesis
      using digit_char_value [of "n mod 10"]
      by (subst (1 2 3) decimal.simps) (simp add: digits_value_snoc)
  qed
qed

lemma digits_value_append:
  "digits_value (xs @ ys) = digits_value xs * 10 ^ length ys + digits_value ys"
proof (induction ys rule: rev_induct)
  case Nil
  show ?case by (simp add: digits_value_def)
next
  case (snoc c ys)
  have "digits_value (xs @ ys @ [c]) = 10 * digits_value (xs @ ys) + digit_value c"
    using digits_value_snoc [of "xs @ ys" c] by simp
  with snoc show ?case by (simp add: digits_value_snoc algebra_simps)
qed

lemma digits_value_zeros: "digits_value (replicate j (CHR ''0'') @ cs) = digits_value cs"
proof -
  have z: "digit_value (CHR ''0'') = 0" by (simp add: digit_value_def)
  have "digits_value (replicate j (CHR ''0'')) = 0"
  proof (induction j)
    case 0
    show ?case by (simp add: digits_value_def)
  next
    case (Suc j)
    have "digits_value (replicate j (CHR ''0'') @ [CHR ''0'']) = 0"
      using Suc z by (simp only: digits_value_snoc)
    then show ?case by (simp add: replicate_append_same)
  qed
  then show ?thesis by (simp add: digits_value_append)
qed

lemma is_digit_not_minus: "is_digit c \<Longrightarrow> c \<noteq> CHR ''-''"
  by (auto simp: is_digit_def)

lemma read_fixed_digits:
  assumes "list_all is_digit ds" and "f < length ds" and "0 < f"
  shows "read_fixed f (take (length ds - f) ds @ ''.'' @ drop (length ds - f) ds)
           = Some (real (digits_value ds) / 10 ^ f)"
    and "read_fixed f (''-'' @ take (length ds - f) ds @ ''.'' @ drop (length ds - f) ds)
           = Some (- (real (digits_value ds) / 10 ^ f))"
proof -
  let ?a = "take (length ds - f) ds" and ?b = "drop (length ds - f) ds"
  let ?body = "?a @ ''.'' @ ?b"
  have la: "length ?a = length ds - f" using assms by simp
  have lb: "length ?b = f" using assms by simp
  have a: "?a \<noteq> []" "list_all is_digit ?a"
    using assms by (auto simp: list_all_iff dest: in_set_takeD)
  have b: "?b \<noteq> []" "list_all is_digit ?b"
    using assms by (auto simp: list_all_iff dest: in_set_dropD)
  have len: "length ?body = length ds + 1" using assms by simp
  have k: "length ?body - f - 1 = length ds - f" "length ?body - f = length ds - f + 1"
    using assms by simp_all
  have pt: "?body ! (length ds - f) = CHR ''.''"
    using la by (simp add: nth_append)
  have tk: "take (length ds - f) ?body = ?a" using la by simp
  have dr: "drop (length ds - f + 1) ?body = ?b" using la by simp
  have ra: "read_nat ?a = Some (digits_value ?a)" using a by (simp add: read_nat_def)
  have rb: "read_nat ?b = Some (digits_value ?b)" using b by (simp add: read_nat_def)
  have v: "digits_value ds = digits_value ?a * 10 ^ f + digits_value ?b"
    using digits_value_append [of ?a ?b] lb by simp
  have val: "real (digits_value ?a) + real (digits_value ?b) / 10 ^ f = real (digits_value ds) / 10 ^ f"
    by (simp add: v field_simps)
  have nm: "take 1 ?body \<noteq> ''-''"
  proof -
    from a obtain c cs where c: "?a = c # cs" by (cases ?a) auto
    with a(2) have "is_digit c" by simp
    then have "c \<noteq> CHR ''-''" by (rule is_digit_not_minus)
    with c show ?thesis by simp
  qed
  have f2: "f + 2 \<le> length ?body" using assms len by simp
  show "read_fixed f ?body = Some (real (digits_value ds) / 10 ^ f)"
    unfolding read_fixed_def Let_def using nm f2 pt tk dr ra rb val k
    by (simp only: if_False k if_True simp_thms) simp
  have m1: "take 1 (''-'' @ ?body) = ''-''" by simp
  have m2: "drop 1 (''-'' @ ?body) = ?body" by simp
  show "read_fixed f (''-'' @ ?body) = Some (- (real (digits_value ds) / 10 ^ f))"
    unfolding read_fixed_def Let_def m1 m2 using f2 pt tk dr ra rb val k
    by (simp only: if_True k simp_thms) simp
qed


lemma toFixed_read:
  assumes "0 < f" and "\<bar>r\<bar> < 10 ^ 21"
  shows "read_fixed f (toFixed f (Fin r)) = Some (round_to f r)"
proof -
  define n where "n = nat \<lfloor>\<bar>r\<bar> * 10 ^ f + 1 / 2\<rfloor>"
  define m where "m = decimal n"
  define ds where "ds = (if length m \<le> f then replicate (f + 1 - length m) (CHR ''0'') @ m else m)"
  have m: "m \<noteq> []" "list_all is_digit m" "digits_value m = n"
    using decimal_digits [of n] by (simp_all add: m_def)
  have z: "is_digit (CHR ''0'')" by (simp add: is_digit_def)
  have ds: "list_all is_digit ds" "f < length ds" "digits_value ds = n"
    using m z by (auto simp: ds_def digits_value_zeros list_all_iff)
  have len: "(if length m \<le> f then f + 1 else length m) = length ds"
    by (simp add: ds_def)
  have "0 \<le> \<bar>r\<bar> * 10 ^ f + 1 / 2" by simp
  then have "0 \<le> \<lfloor>\<bar>r\<bar> * 10 ^ f + 1 / 2\<rfloor>" by (simp only: zero_le_floor)
  then have n: "real n = of_int \<lfloor>\<bar>r\<bar> * 10 ^ f + 1 / 2\<rfloor>" by (simp add: n_def)
  show ?thesis
  proof (cases "r < 0")
    case True
    then have "toFixed f (Fin r)
        = ''-'' @ take (length ds - f) ds @ ''.'' @ drop (length ds - f) ds"
      using assms len by (simp add: toFixed_def Let_def n_def m_def ds_def abs_if)
    moreover have "round_to f r = - (real (digits_value ds) / 10 ^ f)"
      using True n ds(3) by (simp add: round_to_def)
    ultimately show ?thesis using read_fixed_digits(2) [OF ds(1,2) assms(1)] by simp
  next
    case False
    then have "toFixed f (Fin r)
        = take (length ds - f) ds @ ''.'' @ drop (length ds - f) ds"
      using assms len by (simp add: toFixed_def Let_def n_def m_def ds_def abs_if)
    moreover have "round_to f r = real (digits_value ds) / 10 ^ f"
      using False n ds(3) by (simp add: round_to_def)
    ultimately show ?thesis using read_fixed_digits(1) [OF ds(1,2) assms(1)] by simp
  qed
qed

lemma round_to_near: "\<bar>round_to f x - x\<bar> \<le> 1 / (2 * 10 ^ f)"
proof -
  define y where "y = \<bar>x\<bar> * 10 ^ f"
  define k where "k = \<lfloor>y + 1 / 2\<rfloor>"
  have "of_int k \<le> y + 1 / 2" "y + 1 / 2 < of_int k + 1"
    unfolding k_def by linarith+
  then have "\<bar>of_int k - y\<bar> \<le> 1 / 2" by linarith
  then have "\<bar>of_int k - y\<bar> / 10 ^ f \<le> (1 / 2) / 10 ^ f"
    by (rule divide_right_mono) simp
  moreover have "\<bar>of_int k - y\<bar> / 10 ^ f = \<bar>of_int k / 10 ^ f - \<bar>x\<bar>\<bar>"
  proof -
    have "of_int k / 10 ^ f - \<bar>x\<bar> = (of_int k - y) / 10 ^ f"
      by (simp add: y_def field_simps)
    then show ?thesis by (simp add: abs_divide)
  qed
  ultimately have near: "\<bar>of_int k / 10 ^ f - \<bar>x\<bar>\<bar> \<le> 1 / (2 * 10 ^ f)" by simp
  show ?thesis
  proof (cases "x < 0")
    case True
    then have "round_to f x - x = - (of_int k / 10 ^ f - \<bar>x\<bar>)"
      by (simp add: round_to_def k_def y_def)
    with near show ?thesis by (simp only: abs_minus_cancel)
  next
    case False
    then have "round_to f x - x = of_int k / 10 ^ f - \<bar>x\<bar>"
      by (simp add: round_to_def k_def y_def)
    with near show ?thesis by simp
  qed
qed

section \<open>The example image\<close>



section \<open>The ruler\<close>

lemma step_rulerPoints_length:
  "length (rulerPoints s) \<le> 2 \<Longrightarrow> length (rulerPoints (step r p e s)) \<le> 2"
  by (cases e)
     (auto simp: handleMouseMove_def handleMouseLeave_def handleBoxClick_def handleImageClick_def
        setRulerPoints_update_def clearRuler_def toggleRuler_def copyToClipboard_def Let_def
        split: option.splits list.splits prod.splits)

lemma run_rulerPoints_length:
  "length (rulerPoints s) \<le> 2 \<Longrightarrow> length (rulerPoints (run r p es s)) \<le> 2"
  by (induction es arbitrary: s) (simp_all add: step_rulerPoints_length)

text \<open>
  Claim C8. Adding a point to a collection of two points gives the collection of the new
  point alone; adding a point to a collection of fewer than two points appends it; the
  collection never holds more than two points, whatever events the component receives
  from its initial state.
\<close>

theorem ruler_overflow:
  "setRulerPoints_update p3 [p1, p2] = [p3]
   \<and> (length prev < 2 \<longrightarrow> setRulerPoints_update q prev = prev @ [q])
   \<and> length (setRulerPoints_update q prev) \<le> 2
   \<and> length (rulerPoints (run r p es initial_state)) \<le> 2"
  using run_rulerPoints_length [of initial_state r p es]
  by (simp add: setRulerPoints_update_def initial_state_def)

theorem ruler_overflow_witness:
  "rulerPoints (run example_refs example_props
       [ToggleRuler, ClickSurface 0 0, ClickSurface 300 400, ClickSurface 10 20] initial_state)
     = [\<lparr>ruler_x = 10, ruler_y = 20, imageX = Fin (19200 / 1067), imageY = Fin 36\<rparr>]
   \<and> length [\<lparr>ruler_x = 0, ruler_y = 0, imageX = Fin 0, imageY = Fin 0\<rparr>] < 2
   \<and> setRulerPoints_update \<lparr>ruler_x = 300, ruler_y = 400, imageX = Fin 1, imageY = Fin 2\<rparr>
       [\<lparr>ruler_x = 0, ruler_y = 0, imageX = Fin 0, imageY = Fin 0\<rparr>]
     = [\<lparr>ruler_x = 0, ruler_y = 0, imageX = Fin 0, imageY = Fin 0\<rparr>,
        \<lparr>ruler_x = 300, ruler_y = 400, imageX = Fin 1, imageY = Fin 2\<rparr>]"
  using ruler_overflow
    [of "\<lparr>ruler_x = 300, ruler_y = 400, imageX = Fin 1, imageY = Fin 2\<rparr>"
        "\<lparr>ruler_x = 0, ruler_y = 0, imageX = Fin 0, imageY = Fin 0\<rparr>"
        "\<lparr>ruler_x = 0, ruler_y = 0, imageX = Fin 0, imageY = Fin 0\<rparr>"
        "[\<lparr>ruler_x = 0, ruler_y = 0, imageX = Fin 0, imageY = Fin 0\<rparr>]"
        "\<lparr>ruler_x = 300, ruler_y = 400, imageX = Fin 1, imageY = Fin 2\<rparr>"]
  by (simp add: initial_state_def example_refs_def example_props_def toggleRuler_def
      clearRuler_def handleImageClick_def getImageCoordinates_def setRulerPoints_update_def
      Let_def)

section \<open>Hovering\<close>

lemma step_hoveredDetection:
  "hoveredDetection (step r p e s) \<noteq> hoveredDetection s \<Longrightarrow>
     (e = MouseLeave \<and> hoveredDetection (step r p e s) = None) \<or>
     (\<exists>d. e = MouseEnterShape d \<and> hoveredDetection (step r p e s) = Some (det_id d))"
  by (cases e)
     (auto simp: handleMouseMove_def handleMouseLeave_def handleBoxClick_def handleImageClick_def
        clearRuler_def toggleRuler_def copyToClipboard_def Let_def
        split: option.splits list.splits prod.splits if_splits)

lemma step_tooltipData:
  "tooltipData (step r p e s) = None \<Longrightarrow> tooltipData s \<noteq> None \<Longrightarrow> e = MouseLeave"
  by (cases e)
     (auto simp: handleMouseMove_def handleMouseLeave_def handleBoxClick_def handleImageClick_def
        clearRuler_def toggleRuler_def copyToClipboard_def Let_def
        split: option.splits list.splits prod.splits if_splits)

lemma handleMouseMove_hoveredDetection:
  "hoveredDetection (handleMouseMove r p clientX clientY s) = hoveredDetection s"
  by (simp add: handleMouseMove_def Let_def split: option.splits)

lemma run_MouseMove_hoveredDetection:
  "list_all is_MouseMove es \<Longrightarrow> hoveredDetection (run r p es s) = hoveredDetection s"
proof (induction es arbitrary: s)
  case Nil
  show ?case by simp
next
  case (Cons e es)
  from Cons.prems obtain clientX clientY where e: "e = MouseMove clientX clientY"
    by (cases e) simp_all
  from Cons.prems have "list_all is_MouseMove es" by simp
  then have "hoveredDetection (run r p es (step r p e s)) = hoveredDetection (step r p e s)"
    by (rule Cons.IH)
  then show ?case by (simp add: e handleMouseMove_hoveredDetection)
qed

text \<open>
  Claim C10. A movement of the pointer over the surface leaves \<^verbatim>\<open>hoveredDetection\<close> as
  it is and changes nothing but the mouse position and the tooltip; while a detection is
  hovered and the container is mounted, the tooltip follows the pointer. So the hover
  outlasts any number of movements, and a tooltip that is shown is removed by no event but
  the pointer leaving the container. An event changes \<^verbatim>\<open>hoveredDetection\<close> only if it is
  the pointer leaving the container, which clears it, or the pointer entering a shape,
  which sets it to the identifier of that shape's detection.
\<close>

theorem hover_persistence:
  "hoveredDetection (handleMouseMove r p clientX clientY s) = hoveredDetection s
   \<and> (handleMouseMove r p clientX clientY s)
        \<lparr>mousePosition := mousePosition s, tooltipData := tooltipData s\<rparr> = s
   \<and> mousePosition (handleMouseMove r p clientX clientY s)
        = Some (getImageCoordinates r p clientX clientY)
   \<and> (hoveredDetection s = Some h \<and> containerRef r = Some rc \<longrightarrow>
        tooltipData (handleMouseMove r p clientX clientY s) =
          Some \<lparr>tooltip_detection = find (\<lambda>d. det_id d = h) (detections p),
                tooltip_x = clientX - rect_left rc, tooltip_y = clientY - rect_top rc\<rparr>)
   \<and> (list_all is_MouseMove es \<longrightarrow> hoveredDetection (run r p es s) = hoveredDetection s)
   \<and> (hoveredDetection (step r p e s) \<noteq> hoveredDetection s \<longrightarrow>
        (e = MouseLeave \<and> hoveredDetection (step r p e s) = None) \<or>
        (\<exists>d. e = MouseEnterShape d \<and> hoveredDetection (step r p e s) = Some (det_id d)))
   \<and> (tooltipData s \<noteq> None \<and> tooltipData (step r p e s) = None \<longrightarrow> e = MouseLeave)
   \<and> hoveredDetection (step r p MouseLeave s) = None
   \<and> hoveredDetection (step r p (MouseEnterShape d) s) = Some (det_id d)"
proof -
  have "(handleMouseMove r p clientX clientY s)
          \<lparr>mousePosition := mousePosition s, tooltipData := tooltipData s\<rparr> = s"
    by (simp add: handleMouseMove_def Let_def split: option.splits)
  moreover have "mousePosition (handleMouseMove r p clientX clientY s)
      = Some (getImageCoordinates r p clientX clientY)"
    by (simp add: handleMouseMove_def Let_def split: option.splits)
  moreover have "hoveredDetection s = Some h \<and> containerRef r = Some rc \<longrightarrow>
      tooltipData (handleMouseMove r p clientX clientY s) =
        Some \<lparr>tooltip_detection = find (\<lambda>d. det_id d = h) (detections p),
              tooltip_x = clientX - rect_left rc, tooltip_y = clientY - rect_top rc\<rparr>"
    by (simp add: handleMouseMove_def Let_def)
  moreover have "hoveredDetection (step r p MouseLeave s) = None"
    by (simp add: handleMouseLeave_def)
  ultimately show ?thesis
    using handleMouseMove_hoveredDetection [of r p clientX clientY s]
      run_MouseMove_hoveredDetection [of es r p s] step_hoveredDetection [of r p e s]
      step_tooltipData [of r p e s]
    by simp
qed

theorem hover_persistence_witness:
  "hoveredDetection (step example_refs example_props (MouseEnterShape example_detection) initial_state)
     = Some 7
   \<and> containerRef example_refs
     = Some \<lparr>rect_left = 0, rect_top = 0, rect_width = 1067, rect_height = 700\<rparr>
   \<and> list_all is_MouseMove [MouseMove 500 500, MouseMove 900 10]
   \<and> hoveredDetection (run example_refs example_props [MouseMove 500 500, MouseMove 900 10]
        (step example_refs example_props (MouseEnterShape example_detection) initial_state))
     = Some 7
   \<and> tooltipData (handleMouseMove example_refs example_props 900 10
        (step example_refs example_props (MouseEnterShape example_detection) initial_state))
     = Some \<lparr>tooltip_detection = Some example_detection, tooltip_x = 900, tooltip_y = 10\<rparr>
   \<and> hoveredDetection (step example_refs example_props MouseLeave
        (step example_refs example_props (MouseEnterShape example_detection) initial_state))
     \<noteq> hoveredDetection
        (step example_refs example_props (MouseEnterShape example_detection) initial_state)
   \<and> hoveredDetection (step example_refs example_props MouseLeave
        (step example_refs example_props (MouseEnterShape example_detection) initial_state))
     = None"
  using hover_persistence
    [of example_refs example_props 900 10
        "step example_refs example_props (MouseEnterShape example_detection) initial_state"
        7 "\<lparr>rect_left = 0, rect_top = 0, rect_width = 1067, rect_height = 700\<rparr>"
        "[MouseMove 500 500, MouseMove 900 10]" MouseLeave example_detection]
  by (simp add: example_refs_def example_props_def example_detection_def initial_state_def)

section \<open>Coordinate mapping\<close>



section \<open>Visual weight\<close>

text \<open>
  Claim C6, as stated, fails: a detection that is selected but not hovered is drawn with
  the opacity 0.6, which is below the opacity 0.8 of a detection that is hovered only.
\<close>

theorem selected_opacity_counterexample:
  "selectedDetectionId (initial_state\<lparr>selectedDetectionId := Some 7\<rparr>) = Some (det_id example_detection)
   \<and> hoveredDetection (initial_state\<lparr>hoveredDetection := Some 7\<rparr>) = Some (det_id example_detection)
   \<and> selectedDetectionId (initial_state\<lparr>hoveredDetection := Some 7\<rparr>) \<noteq> Some (det_id example_detection)
   \<and> \<not> bv_opacity (renderBoundingBox (initial_state\<lparr>hoveredDetection := Some 7\<rparr>)
            example_detection)
        < bv_opacity (renderBoundingBox (initial_state\<lparr>selectedDetectionId := Some 7\<rparr>)
            example_detection)"
  by (simp add: renderBoundingBox_def initial_state_def example_detection_def Let_def)

text \<open>
  Claim C6, amended. The stroke width of the polygon is 3 for a selected detection, 2.5
  for one that is hovered and not selected, and 2 otherwise, so it is strictly greater
  when selected than when hovered only, and strictly greater when hovered only than by
  default. The opacity of the polygon depends on the hover alone: 0.8 when the detection
  is hovered and 0.6 otherwise, whether it is selected or not; so it is strictly greater
  when hovered than by default, and a selected detection has the opacity of its hover
  state.
\<close>

theorem visual_weight:
  "bv_strokeWidth (renderBoundingBox s d) =
     (if selectedDetectionId s = Some (det_id d) then 3
      else if hoveredDetection s = Some (det_id d) then 2.5 else 2)
   \<and> bv_opacity (renderBoundingBox s d) =
     (if hoveredDetection s = Some (det_id d) then 0.8 else 0.6)
   \<and> (selectedDetectionId s_sel = Some (det_id d) \<and>
       hoveredDetection s_hov = Some (det_id d) \<and> selectedDetectionId s_hov \<noteq> Some (det_id d) \<and>
       hoveredDetection s_def \<noteq> Some (det_id d) \<and> selectedDetectionId s_def \<noteq> Some (det_id d) \<longrightarrow>
       bv_strokeWidth (renderBoundingBox s_hov d) < bv_strokeWidth (renderBoundingBox s_sel d) \<and>
       bv_strokeWidth (renderBoundingBox s_def d) < bv_strokeWidth (renderBoundingBox s_hov d) \<and>
       bv_opacity (renderBoundingBox s_def d) < bv_opacity (renderBoundingBox s_hov d) \<and>
       bv_opacity (renderBoundingBox s_sel d) \<le> bv_opacity (renderBoundingBox s_hov d))"
  by (simp add: renderBoundingBox_def Let_def)

theorem visual_weight_witness:
  "selectedDetectionId (initial_state\<lparr>selectedDetectionId := Some 7\<rparr>) = Some (det_id example_detection)
   \<and> hoveredDetection (initial_state\<lparr>hoveredDetection := Some 7\<rparr>) = Some (det_id example_detection)
   \<and> selectedDetectionId (initial_state\<lparr>hoveredDetection := Some 7\<rparr>) \<noteq> Some (det_id example_detection)
   \<and> hoveredDetection initial_state \<noteq> Some (det_id example_detection)
   \<and> selectedDetectionId initial_state \<noteq> Some (det_id example_detection)
   \<and> bv_strokeWidth (renderBoundingBox (initial_state\<lparr>selectedDetectionId := Some 7\<rparr>)
        example_detection) = 3
   \<and> bv_strokeWidth (renderBoundingBox (initial_state\<lparr>hoveredDetection := Some 7\<rparr>)
        example_detection) = 2.5
   \<and> bv_strokeWidth (renderBoundingBox initial_state example_detection) = 2
   \<and> bv_opacity (renderBoundingBox (initial_state\<lparr>selectedDetectionId := Some 7\<rparr>)
        example_detection) = 0.6
   \<and> bv_opacity (renderBoundingBox (initial_state\<lparr>hoveredDetection := Some 7\<rparr>)
        example_detection) = 0.8
   \<and> bv_opacity (renderBoundingBox initial_state example_detection) = 0.6"
  using visual_weight
    [of "initial_state\<lparr>selectedDetectionId := Some 7\<rparr>" example_detection
        "initial_state\<lparr>selectedDetectionId := Some 7\<rparr>"
        "initial_state\<lparr>hoveredDetection := Some 7\<rparr>" initial_state]
    visual_weight
    [of "initial_state\<lparr>hoveredDetection := Some 7\<rparr>" example_detection
        "initial_state\<lparr>selectedDetectionId := Some 7\<rparr>"
        "initial_state\<lparr>hoveredDetection := Some 7\<rparr>" initial_state]
    visual_weight
    [of initial_state example_detection
        "initial_state\<lparr>selectedDetectionId := Some 7\<rparr>"
        "initial_state\<lparr>hoveredDetection := Some 7\<rparr>" initial_state]
  by (simp add: initial_state_def example_detection_def)

section \<open>Copying to the clipboard\<close>

text \<open>
  Claim C7, as stated, fails: after a failed write the displayed state is the one before
  the click, with no pending timeout; nothing tells the user that the text was not copied.
\<close>

theorem clipboard_failure_counterexample:
  "displayed (copyToClipboard False ''200, 300'' ''popup-center'' initial_state) = displayed initial_state
   \<and> copiedCoordinate (copyToClipboard False ''200, 300'' ''popup-center'' initial_state) = None
   \<and> timeouts (copyToClipboard False ''200, 300'' ''popup-center'' initial_state) = []"
  by (simp add: copyToClipboard_def displayed_def initial_state_def Let_def)

text \<open>
  Claim C7, amended. When the write to the clipboard fails, the failure is caught and
  reported with one line on the console; the write is attempted once and not retried, no
  state variable changes and no timeout is scheduled, so the user interface shows no
  notice. A write that succeeds sets \<^verbatim>\<open>copiedCoordinate\<close> to the label and schedules
  the timeout of 2000 milliseconds that clears it.
\<close>

theorem clipboard_failure:
  "copyToClipboard False txt label s =
     s\<lparr>clipboard_writes := clipboard_writes s @ [txt],
       console_errors := console_errors s @ [''Failed to copy:'']\<rparr>
   \<and> displayed (copyToClipboard False txt label s) = displayed s
   \<and> timeouts (copyToClipboard False txt label s) = timeouts s
   \<and> copiedCoordinate (copyToClipboard False txt label s) = copiedCoordinate s
   \<and> copyToClipboard True txt label s =
     s\<lparr>clipboard_writes := clipboard_writes s @ [txt], copiedCoordinate := Some label,
       timeouts := timeouts s @ [2000]\<rparr>
   \<and> copiedCoordinate (step r p TimeoutFires (copyToClipboard True txt label (s\<lparr>timeouts := []\<rparr>)))
       = None"
  by (simp add: copyToClipboard_def displayed_def Let_def)

section \<open>Clicks in ruler mode\<close>

text \<open>
  Claim C2, as stated, fails: in ruler mode a click on the outline or on a corner marker
  of a detection adds no ruler point, while a click at the same position on the background
  of the surface adds one.
\<close>

theorem ruler_click_on_shape_counterexample:
  "rulerMode (step example_refs example_props ToggleRuler initial_state)
   \<and> rulerPoints (step example_refs example_props (ClickShape example_detection 100 200)
        (step example_refs example_props ToggleRuler initial_state)) = []
   \<and> rulerPoints (step example_refs example_props (ClickSurface 100 200)
        (step example_refs example_props ToggleRuler initial_state))
       = [\<lparr>ruler_x = 100, ruler_y = 200, imageX = Fin (192000 / 1067), imageY = Fin 360\<rparr>]"
  by (simp add: initial_state_def example_refs_def example_props_def toggleRuler_def
      clearRuler_def handleBoxClick_def handleImageClick_def getImageCoordinates_def
      setRulerPoints_update_def Let_def)

text \<open>
  Claim C2, amended. While ruler mode is on and the container is mounted, every click that
  reaches the click handler of the surface, that is, every click that does not land on the
  outline or on a corner marker of a detection, adds a ruler point with the offset of the
  click within the container and the image coordinates \<^verbatim>\<open>getImageCoordinates\<close> gives
  (subject to the overflow rule of two points), and changes nothing else. A click on the
  outline or on a corner marker of a detection is consumed by \<^verbatim>\<open>handleBoxClick\<close>, which
  stops its propagation and, in ruler mode, leaves the state as it is.
\<close>

theorem ruler_click:
  assumes "rulerMode s" and "containerRef r = Some rc"
  shows "step r p (ClickSurface clientX clientY) s =
           s\<lparr>rulerPoints := setRulerPoints_update
               \<lparr>ruler_x = clientX - rect_left rc, ruler_y = clientY - rect_top rc,
                imageX = fst (getImageCoordinates r p clientX clientY),
                imageY = snd (getImageCoordinates r p clientX clientY)\<rparr> (rulerPoints s)\<rparr>
         \<and> step r p (ClickShape d clientX clientY) s = s"
  using assms by (simp add: handleImageClick_def handleBoxClick_def Let_def)

theorem ruler_click_witness:
  "rulerMode (step example_refs example_props ToggleRuler initial_state)
   \<and> containerRef example_refs
       = Some \<lparr>rect_left = 0, rect_top = 0, rect_width = 1067, rect_height = 700\<rparr>
   \<and> rulerPoints (step example_refs example_props (ClickSurface 100 200)
        (step example_refs example_props ToggleRuler initial_state))
       = [\<lparr>ruler_x = 100, ruler_y = 200, imageX = Fin (192000 / 1067), imageY = Fin 360\<rparr>]
   \<and> step example_refs example_props (ClickShape example_detection 100 200)
        (step example_refs example_props ToggleRuler initial_state)
       = step example_refs example_props ToggleRuler initial_state"
proof -
  have m: "rulerMode (step example_refs example_props ToggleRuler initial_state)"
    by (simp add: toggleRuler_def clearRuler_def initial_state_def Let_def)
  have c: "containerRef example_refs
       = Some \<lparr>rect_left = 0, rect_top = 0, rect_width = 1067, rect_height = 700\<rparr>"
    by (simp add: example_refs_def)
  have e: "rulerPoints (step example_refs example_props ToggleRuler initial_state) = []"
    by (simp add: toggleRuler_def clearRuler_def initial_state_def Let_def)
  have g: "getImageCoordinates example_refs example_props 100 200 = (Fin (192000 / 1067), Fin 360)"
    by (simp add: getImageCoordinates_def example_refs_def example_props_def)
  from ruler_click [OF m c, of example_props 100 200 example_detection] m c e g
  show ?thesis
    by (simp add: setRulerPoints_update_def)
qed


end
